theory Spec2Isabelle
  imports Complex_Main "HOL-Library.AList"
begin

section \<open>Herb information extraction by prompt chaining\<close>

text \<open>
  A shallow embedding of \<^verbatim>\<open>src/agents/herbs_info_extraction.py\<close>: the three steps of
  the chain (extract, validate, re-extract) and the driver that sequences them.

  Python strings are modelled as \<^typ>\<open>string\<close>; a \<^typ>\<open>char\<close> stands for the code
  point of the same number, so the model covers texts whose code points are below 256.
  Console output (\<^verbatim>\<open>print\<close>) is not modelled.
\<close>

subsection \<open>Strings: \<^verbatim>\<open>str.strip\<close> and \<^verbatim>\<open>str.lower\<close>\<close>

text \<open>
  \<^verbatim>\<open>str.strip()\<close> without argument removes leading and trailing whitespace. Below 256
  the whitespace code points of Python are 9 to 13, 28 to 32, 133 and 160.
\<close>

definition isspace :: "char \<Rightarrow> bool" where
  "isspace ch =
     (let n = (of_char ch :: nat)
      in (9 \<le> n \<and> n \<le> 13) \<or> (28 \<le> n \<and> n \<le> 32) \<or> n = 133 \<or> n = 160)"

definition lstrip :: "string \<Rightarrow> string" where
  "lstrip s = dropWhile isspace s"

definition rstrip :: "string \<Rightarrow> string" where
  "rstrip s = rev (dropWhile isspace (rev s))"

definition strip :: "string \<Rightarrow> string" where
  "strip s = rstrip (lstrip s)"

text \<open>
  \<^verbatim>\<open>str.lower()\<close>: below 256 the cased upper-case code points are A to Z (65 to 90) and
  192 to 222 without the multiplication sign 215; each is mapped 32 places up.
\<close>

definition lower_char :: "char \<Rightarrow> char" where
  "lower_char ch =
     (let n = (of_char ch :: nat)
      in if (65 \<le> n \<and> n \<le> 90) \<or> (192 \<le> n \<and> n \<le> 222 \<and> n \<noteq> 215)
         then char_of (n + 32) else ch)"

definition lower :: "string \<Rightarrow> string" where
  "lower s = map lower_char s"

subsection \<open>Data structures\<close>

text \<open>The dataclass \<^verbatim>\<open>HerbExtractionResult\<close> with its 16 string fields.\<close>

record HerbExtractionResult =
  title :: string
  authors :: string
  year :: string
  scientific_name :: string
  medicinal_use :: string
  biological_activity :: string
  dose :: string
  phytochemicals :: string
  plant_part_used :: string
  formulation :: string
  botanic_description :: string
  toxicity :: string
  adverse_reactions :: string
  health_benefits :: string
  nutritional_benefits :: string
  reference :: string

text \<open>\<^verbatim>\<open>to_dict\<close> is \<^verbatim>\<open>dataclasses.asdict\<close>: the fields in declaration order.\<close>

definition to_dict :: "HerbExtractionResult \<Rightarrow> (string \<times> string) list" where
  "to_dict r =
   [(''title'', title r),
    (''authors'', authors r),
    (''year'', year r),
    (''scientific_name'', scientific_name r),
    (''medicinal_use'', medicinal_use r),
    (''biological_activity'', biological_activity r),
    (''dose'', dose r),
    (''phytochemicals'', phytochemicals r),
    (''plant_part_used'', plant_part_used r),
    (''formulation'', formulation r),
    (''botanic_description'', botanic_description r),
    (''toxicity'', toxicity r),
    (''adverse_reactions'', adverse_reactions r),
    (''health_benefits'', health_benefits r),
    (''nutritional_benefits'', nutritional_benefits r),
    (''reference'', reference r)]"

text \<open>
  \<^verbatim>\<open>setattr(obj, name, v)\<close>. For a name that is no field of the dataclass Python adds an
  attribute that \<^verbatim>\<open>asdict\<close> never reads; the fields are then unchanged.
\<close>

definition setattr_field :: "HerbExtractionResult \<Rightarrow> string \<Rightarrow> string \<Rightarrow> HerbExtractionResult" where
  "setattr_field r name v =
     (if name = ''title'' then r\<lparr>title := v\<rparr>
      else if name = ''authors'' then r\<lparr>authors := v\<rparr>
      else if name = ''year'' then r\<lparr>year := v\<rparr>
      else if name = ''scientific_name'' then r\<lparr>scientific_name := v\<rparr>
      else if name = ''medicinal_use'' then r\<lparr>medicinal_use := v\<rparr>
      else if name = ''biological_activity'' then r\<lparr>biological_activity := v\<rparr>
      else if name = ''dose'' then r\<lparr>dose := v\<rparr>
      else if name = ''phytochemicals'' then r\<lparr>phytochemicals := v\<rparr>
      else if name = ''plant_part_used'' then r\<lparr>plant_part_used := v\<rparr>
      else if name = ''formulation'' then r\<lparr>formulation := v\<rparr>
      else if name = ''botanic_description'' then r\<lparr>botanic_description := v\<rparr>
      else if name = ''toxicity'' then r\<lparr>toxicity := v\<rparr>
      else if name = ''adverse_reactions'' then r\<lparr>adverse_reactions := v\<rparr>
      else if name = ''health_benefits'' then r\<lparr>health_benefits := v\<rparr>
      else if name = ''nutritional_benefits'' then r\<lparr>nutritional_benefits := v\<rparr>
      else if name = ''reference'' then r\<lparr>reference := v\<rparr>
      else r)"

datatype ExtractionStatus = COMPLETE | PARTIAL | MISSING

text \<open>
  The dataclass \<^verbatim>\<open>FieldValidation\<close>. The source's field \<^verbatim>\<open>value\<close> is named
  \<open>field_value\<close> here. The confidence is one of the literals 0.0, 0.3 and 0.9 and is
  never computed with; it is kept as the number the literal denotes.
\<close>

record FieldValidation =
  field_name :: string
  field_value :: string
  status :: ExtractionStatus
  confidence :: real

subsection \<open>Dictionaries and the generation service\<close>

text \<open>
  A Python \<^verbatim>\<open>dict\<close> keeps insertion order: an association list, where assigning to a
  key that is present keeps its place and a new key goes to the end
  (\<^const>\<open>AList.update\<close>). \<^verbatim>\<open>d.get(k, default)\<close> is \<open>dict_get\<close>.
\<close>

definition dict_get :: "(string \<times> 'v) list \<Rightarrow> string \<Rightarrow> 'v \<Rightarrow> 'v" where
  "dict_get d k dflt = (case map_of d k of None \<Rightarrow> dflt | Some v \<Rightarrow> v)"

text \<open>
  The chain \<^verbatim>\<open>prompt | llm | output_parser\<close> is an external service that returns a
  text or raises. An exception is a value of \<open>error\<close>. The service may answer the same
  prompt differently each time, so it is a function of the number of calls made before
  and of the prompt text; that number is the state threaded through the pipeline.
\<close>

datatype error = GenerationError string

type_synonym service = "nat \<Rightarrow> string \<Rightarrow> error + string"

text \<open>
  Every prompt template of the source ends in the placeholder \<^verbatim>\<open>{text}\<close> and has no
  other; a template is stored as the text before the placeholder, and formatting appends
  the paper text.
\<close>

definition chain_invoke :: "service \<Rightarrow> string \<Rightarrow> string \<Rightarrow> nat \<Rightarrow> (error + string) \<times> nat" where
  "chain_invoke llm prompt_template paper_text calls =
     (llm calls (prompt_template @ paper_text), Suc calls)"

subsection \<open>Step 1: initial extraction\<close>

definition extraction_prompts :: "(string \<times> string) list" where
  "extraction_prompts =
   [(''title'',
     ''Extract the full title of the research paper from the following text. If not available, respond with 'Not available':\<newline>\<newline>''),
    (''authors'',
     ''Extract all authors of the research paper from the following text, separated by commas. If not available, respond with 'Not available':\<newline>\<newline>''),
    (''year'',
     ''Extract the year of publication from the following text. If not available, respond with 'Not available':\<newline>\<newline>''),
    (''scientific_name'',
     ''Extract all scientific names of medicinal plants mentioned in the following text. List them all. If not available, respond with 'Not mentioned':\<newline>\<newline>''),
    (''medicinal_use'',
     ''Extract any medicinal uses mentioned in the following text, i.e., the application of herbs to prevent, diagnose, treat, or manage diseases. If not available, respond with 'Not mentioned':\<newline>\<newline>''),
    (''biological_activity'',
     ''Describe the biological activities of the medicinal plants mentioned in detail from the following text. If not covered, respond with 'Not mentioned':\<newline>\<newline>''),
    (''dose'',
     ''Extract any dosage information including amounts and units from the following text. If not mentioned, respond with 'Not mentioned':\<newline>\<newline>''),
    (''phytochemicals'',
     ''List all phytochemicals present in the medicinal plants mentioned in the following text. If not available, respond with 'Not mentioned':\<newline>\<newline>''),
    (''plant_part_used'',
     ''Describe which part of the plant is used for medicinal purposes from the following text. If not available, respond with 'Not mentioned':\<newline>\<newline>''),
    (''formulation'',
     ''Extract details about the formulation of the medicinal plants (e.g., tablets, capsules, extracts) from the following text. If not available, respond with 'Not mentioned':\<newline>\<newline>''),
    (''botanic_description'',
     ''Provide a detailed botanical description of the plants from the following text, including physical characteristics, structure, and appearance. If not available, respond with 'Not mentioned':\<newline>\<newline>''),
    (''toxicity'',
     ''Extract any information related to the toxicity of the medicinal plants from the following text. If not available, respond with 'Not mentioned':\<newline>\<newline>''),
    (''adverse_reactions'',
     ''List any reported adverse reactions from the following text. If none are mentioned, respond with 'Not mentioned':\<newline>\<newline>''),
    (''health_benefits'',
     ''Describe any health benefits offered by the medicinal plants from the following text. If no benefits are mentioned, respond with 'Not mentioned':\<newline>\<newline>''),
    (''nutritional_benefits'',
     ''Extract any nutritional benefits provided by the medicinal plants from the following text. If not applicable, respond with 'Not mentioned':\<newline>\<newline>''),
    (''reference'',
     ''Extract citation information (title, author(s), year, journal, volume, issue, pages, DOI) and format it as an APA 7th edition reference from the following text. If not available, respond with 'Not mentioned':\<newline>\<newline>'')]"

text \<open>
  One round of the loop over \<^verbatim>\<open>extraction_prompts.items()\<close>: the \<^verbatim>\<open>try\<close> block stores
  the stripped answer, the \<^verbatim>\<open>except Exception\<close> block stores \<^verbatim>\<open>"Not mentioned"\<close>.
\<close>

definition extract_field ::
  "service \<Rightarrow> string \<Rightarrow> (string \<times> string) list \<Rightarrow> string \<times> string \<Rightarrow> nat
   \<Rightarrow> (error + (string \<times> string) list) \<times> nat" where
  "extract_field llm paper_text extracted_fields item calls =
     (case item of (name, prompt_template) \<Rightarrow>
        (case chain_invoke llm prompt_template paper_text calls of
           (Inr result, calls') \<Rightarrow>
             (Inr (AList.update name (strip result) extracted_fields), calls')
         | (Inl e, calls') \<Rightarrow>
             (Inr (AList.update name ''Not mentioned'' extracted_fields), calls')))"

text \<open>The loop; an exception that left a round would end it.\<close>

fun extract_fields ::
  "service \<Rightarrow> string \<Rightarrow> (string \<times> string) list \<Rightarrow> (string \<times> string) list \<Rightarrow> nat
   \<Rightarrow> (error + (string \<times> string) list) \<times> nat" where
  "extract_fields llm paper_text [] extracted_fields calls = (Inr extracted_fields, calls)"
| "extract_fields llm paper_text (item # items) extracted_fields calls =
     (case extract_field llm paper_text extracted_fields item calls of
        (Inl e, calls') \<Rightarrow> (Inl e, calls')
      | (Inr extracted_fields', calls') \<Rightarrow>
          extract_fields llm paper_text items extracted_fields' calls')"

text \<open>The constructor call that builds the result from the dictionary.\<close>

definition make_result :: "(string \<times> string) list \<Rightarrow> HerbExtractionResult" where
  "make_result extracted_fields =
   \<lparr>title = dict_get extracted_fields ''title'' ''Not available'',
    authors = dict_get extracted_fields ''authors'' ''Not available'',
    year = dict_get extracted_fields ''year'' ''Not available'',
    scientific_name = dict_get extracted_fields ''scientific_name'' ''Not mentioned'',
    medicinal_use = dict_get extracted_fields ''medicinal_use'' ''Not mentioned'',
    biological_activity = dict_get extracted_fields ''biological_activity'' ''Not mentioned'',
    dose = dict_get extracted_fields ''dose'' ''Not mentioned'',
    phytochemicals = dict_get extracted_fields ''phytochemicals'' ''Not mentioned'',
    plant_part_used = dict_get extracted_fields ''plant_part_used'' ''Not mentioned'',
    formulation = dict_get extracted_fields ''formulation'' ''Not mentioned'',
    botanic_description = dict_get extracted_fields ''botanic_description'' ''Not mentioned'',
    toxicity = dict_get extracted_fields ''toxicity'' ''Not mentioned'',
    adverse_reactions = dict_get extracted_fields ''adverse_reactions'' ''Not mentioned'',
    health_benefits = dict_get extracted_fields ''health_benefits'' ''Not mentioned'',
    nutritional_benefits = dict_get extracted_fields ''nutritional_benefits'' ''Not mentioned'',
    reference = dict_get extracted_fields ''reference'' ''Not mentioned''\<rparr>"

definition extract_initial_information ::
  "service \<Rightarrow> string \<Rightarrow> nat \<Rightarrow> (error + HerbExtractionResult) \<times> nat" where
  "extract_initial_information llm paper_text calls =
     (case extract_fields llm paper_text extraction_prompts [] calls of
        (Inl e, calls') \<Rightarrow> (Inl e, calls')
      | (Inr extracted_fields, calls') \<Rightarrow> (Inr (make_result extracted_fields), calls'))"

subsection \<open>Step 2: validation\<close>

text \<open>One round of the loop over \<^verbatim>\<open>fields.items()\<close>.\<close>

definition validate_field ::
  "(string \<times> FieldValidation) list \<Rightarrow> string \<times> string \<Rightarrow> (string \<times> FieldValidation) list" where
  "validate_field validations item =
     (case item of (name, v) \<Rightarrow>
        (let (st, conf) =
               (if v \<in> set [''Not mentioned'', ''Not available'', ''''] then (MISSING, 0.0)
                else if length (strip v) < 5 then (PARTIAL, 0.3)
                else (COMPLETE, 0.9))
         in AList.update name
              \<lparr>field_name = name, field_value = v, status = st, confidence = conf\<rparr>
              validations))"

definition validate_extraction :: "HerbExtractionResult \<Rightarrow> (string \<times> FieldValidation) list" where
  "validate_extraction extraction = foldl validate_field [] (to_dict extraction)"

definition get_missing_fields :: "(string \<times> FieldValidation) list \<Rightarrow> string list" where
  "get_missing_fields validations =
     foldl (\<lambda>missing (name, validation).
              if status validation \<in> set [MISSING, PARTIAL] then missing @ [name] else missing)
           [] validations"

subsection \<open>Step 3: re-extraction of missing fields\<close>

definition re_extraction_prompts :: "(string \<times> string) list" where
  "re_extraction_prompts =
   [(''scientific_name'',
     ''Please carefully re-read the following text and extract ALL scientific names of medicinal plants. Look for binomial nomenclature (Genus species). Provide a comprehensive list:\<newline>\<newline>''),
    (''year'',
     ''Please carefully re-read the following text and extract the publication year. Look for any mention of when this work was published or conducted:\<newline>\<newline>''),
    (''medicinal_use'',
     ''Please carefully re-read the following text and provide detailed information about medicinal uses. How are these herbs used to treat, prevent, or manage diseases:\<newline>\<newline>''),
    (''dose'',
     ''Please carefully re-read the following text and extract ALL dosage information mentioned. Include amounts, units, frequency, and administration routes:\<newline>\<newline>''),
    (''phytochemicals'',
     ''Please carefully re-read the following text and list ALL phytochemicals, active compounds, or chemical constituents mentioned:\<newline>\<newline>''),
    (''plant_part_used'',
     ''Please carefully re-read the following text and describe which specific parts of the plant are used (root, leaf, stem, flower, seed, etc.):\<newline>\<newline>''),
    (''formulation'',
     ''Please carefully re-read the following text and extract details about how these plants are formulated (tablets, capsules, extracts, powders, teas, etc.):\<newline>\<newline>''),
    (''botanic_description'',
     ''Please carefully re-read the following text and provide a detailed botanical description including physical characteristics, structure, appearance, and growth habits:\<newline>\<newline>''),
    (''toxicity'',
     ''Please carefully re-read the following text and extract any information about toxicity, safety profiles, or toxic effects:\<newline>\<newline>''),
    (''adverse_reactions'',
     ''Please carefully re-read the following text and list any adverse reactions, side effects, or contraindications mentioned:\<newline>\<newline>''),
    (''health_benefits'',
     ''Please carefully re-read the following text and describe all health benefits mentioned for these medicinal plants:\<newline>\<newline>''),
    (''nutritional_benefits'',
     ''Please carefully re-read the following text and extract information about nutritional benefits, vitamins, minerals, or nutritional value:\<newline>\<newline>''),
    (''reference'',
     ''Please carefully re-read the following text and extract complete citation information (title, authors, year, journal, volume, issue, pages, DOI). Format this as an APA 7th edition reference:\<newline>\<newline>'')]"

text \<open>
  The test of the source on an answer:
  \<^verbatim>\<open>result and result.strip() and result.strip().lower() not in (...)\<close>.
\<close>

definition accepted :: "string \<Rightarrow> bool" where
  "accepted result \<longleftrightarrow>
     result \<noteq> [] \<and> strip result \<noteq> [] \<and>
     lower (strip result) \<notin> set [''not mentioned'', ''not available'', '''']"

text \<open>
  One round of the loop over \<^verbatim>\<open>missing_fields\<close>. A field without a re-extraction prompt
  is passed over without a call. The \<^verbatim>\<open>try\<close> block updates the field when the answer
  passes the test; the \<^verbatim>\<open>except Exception\<close> block only prints.
\<close>

definition re_extract_field ::
  "service \<Rightarrow> string \<Rightarrow> HerbExtractionResult \<Rightarrow> string \<Rightarrow> nat
   \<Rightarrow> (error + HerbExtractionResult) \<times> nat" where
  "re_extract_field llm paper_text updated_extraction field calls =
     (case map_of re_extraction_prompts field of
        None \<Rightarrow> (Inr updated_extraction, calls)
      | Some prompt_template \<Rightarrow>
          (case chain_invoke llm prompt_template paper_text calls of
             (Inr result, calls') \<Rightarrow>
               (if accepted result
                then (Inr (setattr_field updated_extraction field (strip result)), calls')
                else (Inr updated_extraction, calls'))
           | (Inl e, calls') \<Rightarrow> (Inr updated_extraction, calls')))"

fun re_extract_loop ::
  "service \<Rightarrow> string \<Rightarrow> string list \<Rightarrow> HerbExtractionResult \<Rightarrow> nat
   \<Rightarrow> (error + HerbExtractionResult) \<times> nat" where
  "re_extract_loop llm paper_text [] updated_extraction calls = (Inr updated_extraction, calls)"
| "re_extract_loop llm paper_text (field # rest) updated_extraction calls =
     (case re_extract_field llm paper_text updated_extraction field calls of
        (Inl e, calls') \<Rightarrow> (Inl e, calls')
      | (Inr updated_extraction', calls') \<Rightarrow>
          re_extract_loop llm paper_text rest updated_extraction' calls')"

text \<open>
  The copy \<^verbatim>\<open>HerbExtractionResult(**initial_extraction.to_dict())\<close> is a new object
  with the same fields, which a value of the record already is.
\<close>

definition re_extract_missing_fields ::
  "service \<Rightarrow> string \<Rightarrow> string list \<Rightarrow> HerbExtractionResult \<Rightarrow> nat
   \<Rightarrow> (error + HerbExtractionResult) \<times> nat" where
  "re_extract_missing_fields llm paper_text missing_fields initial_extraction calls =
     re_extract_loop llm paper_text missing_fields initial_extraction calls"

subsection \<open>The pipeline\<close>

text \<open>
  \<^verbatim>\<open>verbose\<close> only selects printing, and the final validation under it is printed and
  dropped; neither changes what is returned.
\<close>

definition extract_herb_information ::
  "service \<Rightarrow> string \<Rightarrow> nat \<Rightarrow> (error + HerbExtractionResult) \<times> nat" where
  "extract_herb_information llm paper_text calls =
     (case extract_initial_information llm paper_text calls of
        (Inl e, calls') \<Rightarrow> (Inl e, calls')
      | (Inr extraction, calls') \<Rightarrow>
          (let validations = validate_extraction extraction;
               missing_fields = get_missing_fields validations
           in if missing_fields \<noteq> []
              then re_extract_missing_fields llm paper_text missing_fields extraction calls'
              else (Inr extraction, calls')))"

subsection \<open>Auxiliary definitions for the proofs\<close>

text \<open>The names of the dataclass fields, in declaration order.\<close>

definition field_names :: "string list" where
  "field_names =
   [''title'', ''authors'', ''year'', ''scientific_name'', ''medicinal_use'',
    ''biological_activity'', ''dose'', ''phytochemicals'', ''plant_part_used'',
    ''formulation'', ''botanic_description'', ''toxicity'', ''adverse_reactions'',
    ''health_benefits'', ''nutritional_benefits'', ''reference'']"

text \<open>
  What one round of the extraction loop stores when it makes call number \<open>k\<close>, and the
  dictionary the rounds over \<open>items\<close> build from call number \<open>calls\<close> on. Both only
  abbreviate the closed form of the loop in the lemmas below.
\<close>

definition stored :: "service \<Rightarrow> string \<Rightarrow> nat \<Rightarrow> string \<Rightarrow> string" where
  "stored llm paper_text k prompt_template =
     (case llm k (prompt_template @ paper_text) of
        Inl e \<Rightarrow> ''Not mentioned'' | Inr result \<Rightarrow> strip result)"

definition stored_fields ::
  "service \<Rightarrow> string \<Rightarrow> nat \<Rightarrow> (string \<times> string) list \<Rightarrow> (string \<times> string) list" where
  "stored_fields llm paper_text calls items =
     map (\<lambda>(k, name, prompt_template). (name, stored llm paper_text k prompt_template))
       (zip [calls..<calls + length items] items)"

text \<open>The report entry one round of the validation loop writes.\<close>

definition entry :: "string \<Rightarrow> string \<Rightarrow> FieldValidation" where
  "entry name v =
     \<lparr>field_name = name, field_value = v,
      status = (if v \<in> set [''Not mentioned'', ''Not available'', ''''] then MISSING
                else if length (strip v) < 5 then PARTIAL else COMPLETE),
      confidence = (if v \<in> set [''Not mentioned'', ''Not available'', ''''] then 0.0
                else if length (strip v) < 5 then 0.3 else 0.9)\<rparr>"

text \<open>A service on which every call raises, and the result that holds the same text in every field.\<close>

definition failing_service :: service where
  "failing_service calls prompt = Inl (GenerationError ''timeout'')"

definition all_fields :: "string \<Rightarrow> HerbExtractionResult" where
  "all_fields v =
   \<lparr>title = v, authors = v, year = v, scientific_name = v, medicinal_use = v,
    biological_activity = v, dose = v, phytochemicals = v, plant_part_used = v,
    formulation = v, botanic_description = v, toxicity = v, adverse_reactions = v,
    health_benefits = v, nutritional_benefits = v, reference = v\<rparr>"

section \<open>Properties\<close>

subsection \<open>Strings, field names and dictionaries\<close>

lemma strip_Nil: "strip [] = []"
  by (simp add: strip_def lstrip_def rstrip_def)

lemma strip_not_mentioned: "strip ''Not mentioned'' = ''Not mentioned''"
  by (simp add: strip_def lstrip_def rstrip_def isspace_def)

lemma strip_not_available: "strip ''Not available'' = ''Not available''"
  by (simp add: strip_def lstrip_def rstrip_def isspace_def)

lemma length_lower: "length (lower s) = length s"
  by (simp add: lower_def)

lemma keys_extraction_prompts: "map fst extraction_prompts = field_names"
  by (simp add: extraction_prompts_def field_names_def)

lemma keys_to_dict: "map fst (to_dict r) = field_names"
  by (simp add: to_dict_def field_names_def)

lemma distinct_field_names: "distinct field_names"
  by (simp add: field_names_def)

lemma length_field_names: "length field_names = 16"
  by (simp add: field_names_def)

lemma update_new_key: "k \<notin> fst ` set al \<Longrightarrow> AList.update k v al = al @ [(k, v)]"
  by (induction al) auto

lemma setattr_field_other: "f \<notin> set field_names \<Longrightarrow> setattr_field r f v = r"
  by (simp add: setattr_field_def field_names_def)

lemma to_dict_setattr_field:
  "to_dict (setattr_field r f v) = map (\<lambda>(n, x). (n, if n = f then v else x)) (to_dict r)"
proof (cases "f \<in> set field_names")
  case False
  then have "\<forall>n \<in> set field_names. n \<noteq> f" by blast
  then show ?thesis using False
    by (simp add: setattr_field_other) (simp add: to_dict_def field_names_def)
next
  case True
  then consider "f = ''title''" | "f = ''authors''" | "f = ''year''" | "f = ''scientific_name''"
    | "f = ''medicinal_use''" | "f = ''biological_activity''" | "f = ''dose''"
    | "f = ''phytochemicals''" | "f = ''plant_part_used''" | "f = ''formulation''"
    | "f = ''botanic_description''" | "f = ''toxicity''" | "f = ''adverse_reactions''"
    | "f = ''health_benefits''" | "f = ''nutritional_benefits''" | "f = ''reference''"
    unfolding field_names_def by fastforce
  then show ?thesis
    by cases (simp_all add: setattr_field_def to_dict_def)
qed

lemma to_dict_make_result:
  assumes "map fst d = field_names"
  shows "to_dict (make_result d) = d"
proof -
  from assms obtain v0 v1 v2 v3 v4 v5 v6 v7 v8 v9 v10 v11 v12 v13 v14 v15 where
    "d = [(''title'', v0), (''authors'', v1), (''year'', v2), (''scientific_name'', v3),
      (''medicinal_use'', v4), (''biological_activity'', v5), (''dose'', v6),
      (''phytochemicals'', v7), (''plant_part_used'', v8), (''formulation'', v9),
      (''botanic_description'', v10), (''toxicity'', v11), (''adverse_reactions'', v12),
      (''health_benefits'', v13), (''nutritional_benefits'', v14), (''reference'', v15)]"
    unfolding field_names_def by (auto simp: map_eq_Cons_conv)
  then show ?thesis
    by (simp add: make_result_def to_dict_def dict_get_def)
qed

subsection \<open>The extraction loop in closed form\<close>

lemma extract_field_eq:
  "extract_field llm paper_text acc (name, t) calls =
     (Inr (AList.update name (stored llm paper_text calls t) acc), Suc calls)"
  by (simp add: extract_field_def chain_invoke_def stored_def split: sum.splits)

lemma stored_fields_Cons:
  "stored_fields llm paper_text calls ((name, t) # items) =
     (name, stored llm paper_text calls t) # stored_fields llm paper_text (Suc calls) items"
proof -
  have "[calls..<calls + length ((name, t) # items)]
        = calls # [Suc calls..<Suc calls + length items]"
    by (subst upt_rec) simp
  then show ?thesis
    unfolding stored_fields_def by simp
qed

lemma keys_stored_fields: "map fst (stored_fields llm paper_text calls items) = map fst items"
proof -
  let ?zs = "zip [calls..<calls + length items] items"
  have "map fst (stored_fields llm paper_text calls items) = map (\<lambda>x. fst (snd x)) ?zs"
    by (simp add: stored_fields_def case_prod_unfold)
  also have "\<dots> = map fst (map snd ?zs)"
    by (simp only: map_map comp_def)
  also have "map snd ?zs = items"
    by simp
  finally show ?thesis .
qed

lemma extract_fields_eq:
  "distinct (map fst acc @ map fst items) \<Longrightarrow>
   extract_fields llm paper_text items acc calls =
     (Inr (acc @ stored_fields llm paper_text calls items), calls + length items)"
proof (induction items arbitrary: acc calls)
  case Nil
  then show ?case by (simp add: stored_fields_def)
next
  case (Cons item items)
  obtain name t where item: "item = (name, t)" by (cases item)
  from Cons.prems item have new: "name \<notin> fst ` set acc" by auto
  from Cons.prems item
  have "distinct (map fst (acc @ [(name, stored llm paper_text calls t)]) @ map fst items)"
    by auto
  from Cons.IH [OF this] show ?case
    by (simp add: item extract_field_eq update_new_key [OF new] stored_fields_Cons)
qed

lemma extract_initial_information_eq:
  "extract_initial_information llm paper_text calls =
     (Inr (make_result (stored_fields llm paper_text calls extraction_prompts)), calls + 16)"
proof -
  have "distinct (map fst ([] :: (string \<times> string) list) @ map fst extraction_prompts)"
    by (simp add: keys_extraction_prompts distinct_field_names)
  from extract_fields_eq [OF this, of llm paper_text calls]
  have "extract_fields llm paper_text extraction_prompts [] calls =
     (Inr (stored_fields llm paper_text calls extraction_prompts), calls + length extraction_prompts)"
    by simp
  moreover have "length extraction_prompts = 16"
    using length_field_names keys_extraction_prompts by (metis length_map)
  ultimately show ?thesis
    by (simp add: extract_initial_information_def)
qed

lemma to_dict_extracted:
  "to_dict (make_result (stored_fields llm paper_text calls extraction_prompts))
     = stored_fields llm paper_text calls extraction_prompts"
  by (rule to_dict_make_result) (simp add: keys_stored_fields keys_extraction_prompts)

lemma stored_fields_nth:
  "i < length items \<Longrightarrow>
   stored_fields llm paper_text calls items ! i
     = (fst (items ! i), stored llm paper_text (calls + i) (snd (items ! i)))"
  by (simp add: stored_fields_def case_prod_unfold)

lemma map_of_stored_fields:
  assumes "distinct (map fst items)" "i < length items"
  shows "map_of (stored_fields llm paper_text calls items) (fst (items ! i))
           = Some (stored llm paper_text (calls + i) (snd (items ! i)))"
proof (rule map_of_is_SomeI)
  show "distinct (map fst (stored_fields llm paper_text calls items))"
    using assms(1) by (simp add: keys_stored_fields)
  have "length (stored_fields llm paper_text calls items) = length items"
    by (simp add: stored_fields_def)
  with assms(2) have "stored_fields llm paper_text calls items ! i
      \<in> set (stored_fields llm paper_text calls items)"
    by (metis nth_mem)
  with assms(2) show "(fst (items ! i), stored llm paper_text (calls + i) (snd (items ! i)))
      \<in> set (stored_fields llm paper_text calls items)"
    by (simp add: stored_fields_nth)
qed

subsection \<open>The validation loop in closed form\<close>

lemma validate_field_eq:
  "validate_field validations (name, v) = AList.update name (entry name v) validations"
  by (simp add: validate_field_def entry_def)

lemma foldl_validate_field:
  "distinct (map fst acc @ map fst items) \<Longrightarrow>
   foldl validate_field acc items = acc @ map (\<lambda>(name, v). (name, entry name v)) items"
proof (induction items arbitrary: acc)
  case Nil
  then show ?case by simp
next
  case (Cons item items)
  obtain name v where item: "item = (name, v)" by (cases item)
  from Cons.prems item have new: "name \<notin> fst ` set acc" by auto
  from Cons.prems item
  have "distinct (map fst (acc @ [(name, entry name v)]) @ map fst items)" by auto
  from Cons.IH [OF this] show ?case
    by (simp add: item validate_field_eq update_new_key [OF new])
qed

lemma validate_extraction_eq:
  "validate_extraction extraction
     = map (\<lambda>(name, v). (name, entry name v)) (to_dict extraction)"
proof -
  have "distinct (map fst ([] :: (string \<times> FieldValidation) list) @ map fst (to_dict extraction))"
    by (simp add: keys_to_dict distinct_field_names)
  from foldl_validate_field [OF this] show ?thesis
    by (simp add: validate_extraction_def)
qed

lemma keys_validate_extraction: "map fst (validate_extraction extraction) = field_names"
  by (simp add: validate_extraction_eq case_prod_unfold comp_def keys_to_dict)

lemma map_of_validate_extraction:
  assumes "(name, v) \<in> set (to_dict extraction)"
  shows "map_of (validate_extraction extraction) name = Some (entry name v)"
proof (rule map_of_is_SomeI)
  show "distinct (map fst (validate_extraction extraction))"
    by (simp add: keys_validate_extraction distinct_field_names)
  from assms show "(name, entry name v) \<in> set (validate_extraction extraction)"
    by (force simp: validate_extraction_eq)
qed

lemma foldl_missing:
  "foldl (\<lambda>missing (name, validation).
            if status validation \<in> set [MISSING, PARTIAL] then missing @ [name] else missing)
         acc validations
   = acc @ map fst (filter (\<lambda>(name, validation).
                       status validation = MISSING \<or> status validation = PARTIAL) validations)"
  by (induction validations arbitrary: acc) (auto simp: case_prod_unfold)

lemma get_missing_fields_eq:
  "get_missing_fields validations
   = map fst (filter (\<lambda>(name, validation).
                       status validation = MISSING \<or> status validation = PARTIAL) validations)"
  using foldl_missing [of "[]" validations] by (simp add: get_missing_fields_def)

subsection \<open>The re-extraction loop\<close>

lemma accepted_iff:
  "accepted result \<longleftrightarrow>
     strip result \<noteq> [] \<and> lower (strip result) \<notin> {''not mentioned'', ''not available'', ''''}"
  by (auto simp: accepted_def strip_Nil)

lemma prompts_are_fields:
  "map_of re_extraction_prompts f = Some t \<Longrightarrow> f \<in> set field_names"
proof -
  assume "map_of re_extraction_prompts f = Some t"
  then have "f \<in> fst ` set re_extraction_prompts"
    by (metis map_of_eq_None_iff option.distinct(1))
  moreover have "fst ` set re_extraction_prompts \<subseteq> set field_names"
    by (simp add: re_extraction_prompts_def field_names_def)
  ultimately show ?thesis by blast
qed

lemma map_of_map_values:
  "map_of (map (\<lambda>(n, x). (n, g n x)) xs) k = map_option (g k) (map_of xs k)"
  by (induction xs) auto

lemma map_of_to_dict_setattr_field:
  "map_of (to_dict (setattr_field r f v)) n
     = (if n = f \<and> f \<in> set field_names then Some v else map_of (to_dict r) n)"
proof -
  have dom: "map_of (to_dict r) n = None \<longleftrightarrow> n \<notin> set field_names"
    using keys_to_dict [of r] by (metis map_of_eq_None_iff set_map)
  have "map_of (to_dict (setattr_field r f v)) n
          = map_option (\<lambda>x. if n = f then v else x) (map_of (to_dict r) n)"
    by (simp add: to_dict_setattr_field map_of_map_values)
  with dom show ?thesis
    by (cases "map_of (to_dict r) n") auto
qed

lemma re_extract_field_returns:
  "\<exists>r'. re_extract_field llm paper_text r f calls
     = (Inr r', calls + (if map_of re_extraction_prompts f = None then 0 else 1))"
  by (auto simp: re_extract_field_def chain_invoke_def split: option.splits sum.splits)

lemma re_extract_field_other:
  "re_extract_field llm paper_text r f calls = (Inr r', calls') \<Longrightarrow> n \<noteq> f \<Longrightarrow>
   map_of (to_dict r') n = map_of (to_dict r) n"
  by (auto simp: re_extract_field_def chain_invoke_def map_of_to_dict_setattr_field
      split: option.splits sum.splits if_splits)

lemma re_extract_field_no_prompt:
  "map_of re_extraction_prompts f = None \<Longrightarrow>
   re_extract_field llm paper_text r f calls = (Inr r, calls)"
  by (simp add: re_extract_field_def)

lemma re_extract_field_answer:
  "map_of re_extraction_prompts f = Some t \<Longrightarrow> llm calls (t @ paper_text) = Inr result \<Longrightarrow>
   re_extract_field llm paper_text r f calls
     = (Inr (if accepted result then setattr_field r f (strip result) else r), Suc calls)"
  by (simp add: re_extract_field_def chain_invoke_def)

lemma re_extract_field_failure:
  "map_of re_extraction_prompts f = Some t \<Longrightarrow> llm calls (t @ paper_text) = Inl e \<Longrightarrow>
   re_extract_field llm paper_text r f calls = (Inr r, Suc calls)"
  by (simp add: re_extract_field_def chain_invoke_def)

lemma re_extract_loop_returns:
  "\<exists>r'. re_extract_loop llm paper_text fs r calls
     = (Inr r', calls + length (filter (\<lambda>f. map_of re_extraction_prompts f \<noteq> None) fs))"
proof (induction fs arbitrary: r calls)
  case Nil
  then show ?case by simp
next
  case (Cons f fs)
  obtain r1 where r1: "re_extract_field llm paper_text r f calls
      = (Inr r1, calls + (if map_of re_extraction_prompts f = None then 0 else 1))"
    using re_extract_field_returns by blast
  from Cons.IH [of r1 "calls + (if map_of re_extraction_prompts f = None then 0 else 1)"]
  show ?case by (auto simp: r1)
qed

lemma re_extract_loop_append:
  "re_extract_loop llm paper_text fs r calls = (Inr r1, calls1) \<Longrightarrow>
   re_extract_loop llm paper_text (fs @ gs) r calls = re_extract_loop llm paper_text gs r1 calls1"
proof (induction fs arbitrary: r calls)
  case Nil
  then show ?case by simp
next
  case (Cons f fs)
  obtain r0 c0 where s: "re_extract_field llm paper_text r f calls = (Inr r0, c0)"
    using re_extract_field_returns by blast
  with Cons.prems have "re_extract_loop llm paper_text fs r0 c0 = (Inr r1, calls1)" by simp
  from Cons.IH [OF this] show ?case by (simp add: s)
qed

lemma re_extract_loop_frame:
  "re_extract_loop llm paper_text fs r calls = (Inr r', calls') \<Longrightarrow>
   n \<notin> set fs \<or> map_of re_extraction_prompts n = None \<Longrightarrow>
   map_of (to_dict r') n = map_of (to_dict r) n"
proof (induction fs arbitrary: r calls)
  case Nil
  then show ?case by simp
next
  case (Cons f fs)
  obtain r0 c0 where s: "re_extract_field llm paper_text r f calls = (Inr r0, c0)"
    using re_extract_field_returns by blast
  with Cons.prems have rest: "re_extract_loop llm paper_text fs r0 c0 = (Inr r', calls')" by simp
  from Cons.prems(2) have "n \<notin> set fs \<or> map_of re_extraction_prompts n = None" by auto
  from Cons.IH [OF rest this] have a: "map_of (to_dict r') n = map_of (to_dict r0) n" .
  have "map_of (to_dict r0) n = map_of (to_dict r) n"
  proof (cases "n = f")
    case True
    with Cons.prems(2) have "map_of re_extraction_prompts f = None" by auto
    with s show ?thesis by (simp add: re_extract_field_no_prompt)
  next
    case False
    with s show ?thesis by (rule re_extract_field_other)
  qed
  with a show ?case by simp
qed

subsection \<open>The pipeline\<close>

lemma length_extraction_prompts: "length extraction_prompts = 16"
  using length_field_names keys_extraction_prompts by (metis length_map)

lemma extract_herb_information_eq:
  "extract_herb_information llm paper_text calls =
     (let r = make_result (stored_fields llm paper_text calls extraction_prompts);
          missing_fields = get_missing_fields (validate_extraction r)
      in if missing_fields = [] then (Inr r, calls + 16)
         else re_extract_missing_fields llm paper_text missing_fields r (calls + 16))"
  by (simp add: extract_herb_information_def extract_initial_information_eq Let_def)

subsection \<open>A service on which every call fails\<close>

lemma stored_failing:
  assumes "\<And>k p. \<exists>e. llm k p = Inl e"
  shows "stored llm paper_text k t = ''Not mentioned''"
proof -
  from assms obtain e where "llm k (t @ paper_text) = Inl e" by blast
  then show ?thesis by (simp add: stored_def)
qed

lemma stored_fields_failing:
  assumes "\<And>k p. \<exists>e. llm k p = Inl e"
  shows "stored_fields llm paper_text calls items
           = map (\<lambda>(name, t). (name, ''Not mentioned'')) items"
proof (induction items arbitrary: calls)
  case Nil
  then show ?case by (simp add: stored_fields_def)
next
  case (Cons item items)
  then show ?case
    by (cases item) (simp add: stored_fields_Cons stored_failing [OF assms])
qed

lemma make_result_not_mentioned:
  "make_result (map (\<lambda>(name, t). (name, ''Not mentioned'')) extraction_prompts)
     = all_fields ''Not mentioned''"
  by (simp add: extraction_prompts_def make_result_def dict_get_def all_fields_def)

lemma extract_initial_information_failing:
  assumes "\<And>k p. \<exists>e. llm k p = Inl e"
  shows "extract_initial_information llm paper_text calls
           = (Inr (all_fields ''Not mentioned''), calls + 16)"
  by (simp add: extract_initial_information_eq stored_fields_failing [OF assms]
      make_result_not_mentioned)

lemma missing_fields_not_mentioned:
  "get_missing_fields (validate_extraction (all_fields ''Not mentioned'')) = field_names"
  by (simp add: get_missing_fields_eq validate_extraction_eq to_dict_def all_fields_def
      entry_def field_names_def)

lemma re_extract_loop_failing:
  assumes "\<And>k p. \<exists>e. llm k p = Inl e"
  shows "re_extract_loop llm paper_text fs r calls
     = (Inr r, calls + length (filter (\<lambda>f. map_of re_extraction_prompts f \<noteq> None) fs))"
proof (induction fs arbitrary: calls)
  case Nil
  then show ?case by simp
next
  case (Cons f fs)
  show ?case
  proof (cases "map_of re_extraction_prompts f")
    case None
    then show ?thesis by (simp add: re_extract_field_no_prompt Cons.IH)
  next
    case (Some t)
    from assms obtain e where "llm calls (t @ paper_text) = Inl e" by blast
    with Some show ?thesis by (simp add: re_extract_field_failure Cons.IH)
  qed
qed

lemma prompted_field_names:
  "length (filter (\<lambda>f. map_of re_extraction_prompts f \<noteq> None) field_names) = 13"
  by (simp add: re_extraction_prompts_def field_names_def)

lemma extract_herb_information_failing:
  assumes "\<And>k p. \<exists>e. llm k p = Inl e"
  shows "extract_herb_information llm paper_text calls
           = (Inr (all_fields ''Not mentioned''), calls + 29)"
proof -
  have "field_names \<noteq> []" by (simp add: field_names_def)
  then show ?thesis
    unfolding extract_herb_information_def
    using prompted_field_names
    by (simp add: extract_initial_information_failing [OF assms] missing_fields_not_mentioned
        re_extract_missing_fields_def re_extract_loop_failing [OF assms])
qed

subsection \<open>Where a re-extracted value comes from\<close>

lemma re_extract_field_cases:
  assumes "re_extract_field llm paper_text r f calls = (Inr r0, calls0)"
  shows "r0 = r \<or>
     (\<exists>t result. map_of re_extraction_prompts f = Some t \<and>
        llm calls (t @ paper_text) = Inr result \<and> accepted result \<and>
        r0 = setattr_field r f (strip result))"
  using assms
  by (auto simp: re_extract_field_def chain_invoke_def split: option.splits sum.splits if_splits)

lemma re_extract_loop_origin:
  "re_extract_loop llm paper_text fs r calls = (Inr r', calls') \<Longrightarrow>
   map_of (to_dict r') n = map_of (to_dict r) n \<or>
   (\<exists>k t result. n \<in> set fs \<and> map_of re_extraction_prompts n = Some t \<and>
      llm k (t @ paper_text) = Inr result \<and> accepted result \<and>
      map_of (to_dict r') n = Some (strip result))"
proof (induction fs arbitrary: r calls)
  case Nil
  then show ?case by simp
next
  case (Cons f fs)
  obtain r0 c0 where s: "re_extract_field llm paper_text r f calls = (Inr r0, c0)"
    using re_extract_field_returns by blast
  with Cons.prems have rest: "re_extract_loop llm paper_text fs r0 c0 = (Inr r', calls')" by simp
  from Cons.IH [OF rest] consider
      (same) "map_of (to_dict r') n = map_of (to_dict r0) n"
    | (new) "\<exists>k t result. n \<in> set fs \<and> map_of re_extraction_prompts n = Some t \<and>
        llm k (t @ paper_text) = Inr result \<and> accepted result \<and>
        map_of (to_dict r') n = Some (strip result)"
    by blast
  then show ?case
  proof cases
    case new
    then show ?thesis by auto
  next
    case same
    from re_extract_field_cases [OF s] show ?thesis
    proof
      assume "r0 = r"
      with same show ?thesis by simp
    next
      assume "\<exists>t result. map_of re_extraction_prompts f = Some t \<and>
        llm calls (t @ paper_text) = Inr result \<and> accepted result \<and>
        r0 = setattr_field r f (strip result)"
      then obtain t result where t: "map_of re_extraction_prompts f = Some t"
        and a: "llm calls (t @ paper_text) = Inr result" "accepted result"
        and r0: "r0 = setattr_field r f (strip result)"
        by blast
      from t have "f \<in> set field_names" by (rule prompts_are_fields)
      with same r0 have "map_of (to_dict r') n
          = (if n = f then Some (strip result) else map_of (to_dict r) n)"
        by (simp add: map_of_to_dict_setattr_field)
      with t a show ?thesis by (cases "n = f") auto
    qed
  qed
qed

section \<open>The claims\<close>

text \<open>
  Claim C1. When every call of the generation service fails, the extraction stores
  \<^verbatim>\<open>"Not mentioned"\<close> in every field, also in \<open>title\<close>, \<open>authors\<close> and \<open>year\<close>,
  whose prompts and constructor defaults name \<^verbatim>\<open>"Not available"\<close>: the handler of the
  loop writes the same text for every field.
\<close>

theorem failed_extraction_stores_not_mentioned:
  "extract_initial_information (\<lambda>calls prompt. Inl e) paper_text calls
     = (Inr (all_fields ''Not mentioned''), calls + 16) \<and>
   title (all_fields ''Not mentioned'') = ''Not mentioned'' \<and>
   authors (all_fields ''Not mentioned'') = ''Not mentioned'' \<and>
   year (all_fields ''Not mentioned'') = ''Not mentioned''"
  by (simp add: extract_initial_information_failing) (simp add: all_fields_def)

text \<open>
  Claim C2. For every result and every field with value \<open>v\<close>, the report holds one entry
  for the field, with the field's name and value, and its status is MISSING iff \<open>v\<close> is
  \<^verbatim>\<open>"Not mentioned"\<close>, \<^verbatim>\<open>"Not available"\<close> or empty; PARTIAL iff \<open>v\<close> is none of these
  and is shorter than 5 after stripping; COMPLETE iff \<open>v\<close> is none of these and has
  length 5 or more after stripping. The confidence is 0.0, 0.3 and 0.9 for the three.
\<close>

theorem validation_tiers:
  assumes "(name, v) \<in> set (to_dict extraction)"
  shows "\<exists>fv. map_of (validate_extraction extraction) name = Some fv \<and>
     field_name fv = name \<and> field_value fv = v \<and>
     (status fv = MISSING \<longleftrightarrow> v = ''Not mentioned'' \<or> v = ''Not available'' \<or> v = '''') \<and>
     (status fv = PARTIAL \<longleftrightarrow>
        v \<noteq> ''Not mentioned'' \<and> v \<noteq> ''Not available'' \<and> v \<noteq> '''' \<and> length (strip v) < 5) \<and>
     (status fv = COMPLETE \<longleftrightarrow>
        v \<noteq> ''Not mentioned'' \<and> v \<noteq> ''Not available'' \<and> v \<noteq> '''' \<and> 5 \<le> length (strip v)) \<and>
     confidence fv = (case status fv of MISSING \<Rightarrow> 0.0 | PARTIAL \<Rightarrow> 0.3 | COMPLETE \<Rightarrow> 0.9)"
proof -
  from assms have "map_of (validate_extraction extraction) name = Some (entry name v)"
    by (rule map_of_validate_extraction)
  moreover have "field_name (entry name v) = name" "field_value (entry name v) = v"
    by (simp_all add: entry_def)
  moreover have "status (entry name v) = MISSING
      \<longleftrightarrow> v = ''Not mentioned'' \<or> v = ''Not available'' \<or> v = ''''"
    by (simp add: entry_def)
  moreover have "status (entry name v) = PARTIAL
      \<longleftrightarrow> v \<noteq> ''Not mentioned'' \<and> v \<noteq> ''Not available'' \<and> v \<noteq> '''' \<and> length (strip v) < 5"
    by (simp add: entry_def)
  moreover have "status (entry name v) = COMPLETE
      \<longleftrightarrow> v \<noteq> ''Not mentioned'' \<and> v \<noteq> ''Not available'' \<and> v \<noteq> '''' \<and> 5 \<le> length (strip v)"
    by (auto simp: entry_def)
  moreover have "confidence (entry name v)
      = (case status (entry name v) of MISSING \<Rightarrow> 0.0 | PARTIAL \<Rightarrow> 0.3 | COMPLETE \<Rightarrow> 0.9)"
    by (simp add: entry_def)
  ultimately show ?thesis by blast
qed

text \<open>
  The theorem at three results: a value of stripped length 4 is PARTIAL, one of stripped
  length 5 is COMPLETE, and a sentinel is MISSING.
\<close>

theorem validation_tiers_witness:
  "(''dose'', ''2 g.'') \<in> set (to_dict ((all_fields ''Not mentioned'')\<lparr>dose := ''2 g.''\<rparr>)) \<and>
   (\<exists>fv. map_of (validate_extraction ((all_fields ''Not mentioned'')\<lparr>dose := ''2 g.''\<rparr>)) ''dose''
           = Some fv \<and> status fv = PARTIAL \<and> confidence fv = 0.3) \<and>
   (''dose'', ''2 g/d'') \<in> set (to_dict ((all_fields ''Not mentioned'')\<lparr>dose := ''2 g/d''\<rparr>)) \<and>
   (\<exists>fv. map_of (validate_extraction ((all_fields ''Not mentioned'')\<lparr>dose := ''2 g/d''\<rparr>)) ''dose''
           = Some fv \<and> status fv = COMPLETE \<and> confidence fv = 0.9) \<and>
   (''year'', ''Not available'') \<in> set (to_dict (all_fields ''Not available'')) \<and>
   (\<exists>fv. map_of (validate_extraction (all_fields ''Not available'')) ''year''
           = Some fv \<and> status fv = MISSING \<and> confidence fv = 0.0)"
proof -
  have a: "(''dose'', ''2 g.'') \<in> set (to_dict ((all_fields ''Not mentioned'')\<lparr>dose := ''2 g.''\<rparr>))"
    by (simp add: to_dict_def all_fields_def)
  have b: "(''dose'', ''2 g/d'') \<in> set (to_dict ((all_fields ''Not mentioned'')\<lparr>dose := ''2 g/d''\<rparr>))"
    by (simp add: to_dict_def all_fields_def)
  have c: "(''year'', ''Not available'') \<in> set (to_dict (all_fields ''Not available''))"
    by (simp add: to_dict_def all_fields_def)
  have la: "length (strip ''2 g.'') = 4" and lb: "length (strip ''2 g/d'') = 5"
    by (simp_all add: strip_def lstrip_def rstrip_def isspace_def)
  from validation_tiers [OF a] la
  have "\<exists>fv. map_of (validate_extraction ((all_fields ''Not mentioned'')\<lparr>dose := ''2 g.''\<rparr>)) ''dose''
           = Some fv \<and> status fv = PARTIAL \<and> confidence fv = 0.3"
    by auto
  moreover from validation_tiers [OF b] lb
  have "\<exists>fv. map_of (validate_extraction ((all_fields ''Not mentioned'')\<lparr>dose := ''2 g/d''\<rparr>)) ''dose''
           = Some fv \<and> status fv = COMPLETE \<and> confidence fv = 0.9"
    by auto
  moreover from validation_tiers [OF c]
  have "\<exists>fv. map_of (validate_extraction (all_fields ''Not available'')) ''year''
           = Some fv \<and> status fv = MISSING \<and> confidence fv = 0.0"
    by auto
  ultimately show ?thesis using a b c by blast
qed

text \<open>
  Claim C3. Let \<open>field\<close> stand once in \<open>missing_fields\<close>, have the re-extraction prompt
  \<open>t\<close>, and let the service answer its call with \<open>result\<close>; its call is the one after the
  calls for the fields before it that have a prompt. Then the field's value after the
  re-extraction is the stripped answer iff the stripped answer is not empty and its
  lower-cased form is none of \<^verbatim>\<open>"not mentioned"\<close>, \<^verbatim>\<open>"not available"\<close> and the empty string;
  otherwise it is the value the field had before.
\<close>

theorem repair_acceptance_rule:
  assumes "field \<notin> set pre" and "field \<notin> set post"
    and "map_of re_extraction_prompts field = Some t"
    and "llm (calls + length (filter (\<lambda>f. map_of re_extraction_prompts f \<noteq> None) pre))
           (t @ paper_text) = Inr result"
  shows "\<exists>r' calls'.
     re_extract_missing_fields llm paper_text (pre @ field # post) r calls = (Inr r', calls') \<and>
     map_of (to_dict r') field
       = (if strip result \<noteq> [] \<and>
             lower (strip result) \<notin> {''not mentioned'', ''not available'', ''''}
          then Some (strip result) else map_of (to_dict r) field)"
proof -
  let ?c1 = "calls + length (filter (\<lambda>f. map_of re_extraction_prompts f \<noteq> None) pre)"
  obtain r1 where pre: "re_extract_loop llm paper_text pre r calls = (Inr r1, ?c1)"
    using re_extract_loop_returns by blast
  have v1: "map_of (to_dict r1) field = map_of (to_dict r) field"
    using re_extract_loop_frame [OF pre] assms(1) by blast
  let ?r2 = "if accepted result then setattr_field r1 field (strip result) else r1"
  have step: "re_extract_field llm paper_text r1 field ?c1 = (Inr ?r2, Suc ?c1)"
    using assms(3,4) by (rule re_extract_field_answer)
  obtain r' calls' where post: "re_extract_loop llm paper_text post ?r2 (Suc ?c1) = (Inr r', calls')"
    using re_extract_loop_returns by blast
  have v3: "map_of (to_dict r') field = map_of (to_dict ?r2) field"
    using re_extract_loop_frame [OF post] assms(2) by blast
  from assms(3) have "field \<in> set field_names" by (rule prompts_are_fields)
  then have v2: "map_of (to_dict ?r2) field
      = (if accepted result then Some (strip result) else map_of (to_dict r) field)"
    by (simp add: map_of_to_dict_setattr_field v1)
  have "re_extract_loop llm paper_text (pre @ field # post) r calls
      = re_extract_loop llm paper_text (field # post) r1 ?c1"
    using pre by (rule re_extract_loop_append)
  also have "\<dots> = (Inr r', calls')"
    using step post by simp
  finally have "re_extract_missing_fields llm paper_text (pre @ field # post) r calls
      = (Inr r', calls')"
    by (simp add: re_extract_missing_fields_def)
  moreover from v3 v2 have "map_of (to_dict r') field
       = (if strip result \<noteq> [] \<and>
             lower (strip result) \<notin> {''not mentioned'', ''not available'', ''''}
          then Some (strip result) else map_of (to_dict r) field)"
    by (simp only: accepted_iff)
  ultimately show ?thesis by blast
qed

text \<open>
  The theorem at \<open>dose\<close>, selected after \<open>title\<close> and \<open>year\<close>: an answer with content is
  stored stripped, and an answer that spells a sentinel leaves the old value.
\<close>

theorem repair_acceptance_rule_witness:
  "(\<exists>r' calls'.
      re_extract_missing_fields
        (\<lambda>k prompt. if k = 1 then Inr '' 500 mg daily '' else Inl (GenerationError ''timeout''))
        ''Turmeric.'' [''title'', ''year'', ''dose'', ''toxicity''] (all_fields ''n/a'') 0
        = (Inr r', calls') \<and>
      map_of (to_dict r') ''dose'' = Some ''500 mg daily'') \<and>
   (\<exists>r' calls'.
      re_extract_missing_fields
        (\<lambda>k prompt. if k = 1 then Inr ''NOT Mentioned '' else Inl (GenerationError ''timeout''))
        ''Turmeric.'' [''title'', ''year'', ''dose'', ''toxicity''] (all_fields ''n/a'') 0
        = (Inr r', calls') \<and>
      map_of (to_dict r') ''dose'' = Some ''n/a'')"
proof -
  let ?good = "\<lambda>(k::nat) (prompt::string).
      if k = 1 then Inr '' 500 mg daily '' else Inl (GenerationError ''timeout'')"
  let ?bad = "\<lambda>(k::nat) (prompt::string).
      if k = 1 then Inr ''NOT Mentioned '' else Inl (GenerationError ''timeout'')"
  have pre: "''dose'' \<notin> set [''title'', ''year'']" and post: "''dose'' \<notin> set [''toxicity'']"
    by simp_all
  obtain t where t: "map_of re_extraction_prompts ''dose'' = Some t"
    by (simp add: re_extraction_prompts_def)
  have n: "length (filter (\<lambda>f. map_of re_extraction_prompts f \<noteq> None) [''title'', ''year'']) = 1"
    by (simp add: re_extraction_prompts_def)
  have good: "?good (0 + length (filter (\<lambda>f. map_of re_extraction_prompts f \<noteq> None)
                                   [''title'', ''year''])) (t @ ''Turmeric.'')
              = Inr '' 500 mg daily ''"
    by (simp only: n) simp
  have bad: "?bad (0 + length (filter (\<lambda>f. map_of re_extraction_prompts f \<noteq> None)
                                   [''title'', ''year''])) (t @ ''Turmeric.'')
              = Inr ''NOT Mentioned ''"
    by (simp only: n) simp
  have sg: "strip '' 500 mg daily '' = ''500 mg daily''"
    and lg: "lower ''500 mg daily'' = ''500 mg daily''"
    and sb: "strip ''NOT Mentioned '' = ''NOT Mentioned''"
    and lb: "lower ''NOT Mentioned'' = ''not mentioned''"
    by (simp_all add: strip_def lstrip_def rstrip_def isspace_def lower_def lower_char_def
        char_of_eq_iff)
  have old: "map_of (to_dict (all_fields ''n/a'')) ''dose'' = Some ''n/a''"
    by (simp add: to_dict_def all_fields_def)
  from repair_acceptance_rule [where llm = ?good and r = "all_fields ''n/a''", OF pre post t good]
  have "\<exists>r' calls'.
      re_extract_missing_fields ?good ''Turmeric.'' [''title'', ''year'', ''dose'', ''toxicity'']
        (all_fields ''n/a'') 0 = (Inr r', calls') \<and>
      map_of (to_dict r') ''dose'' = Some ''500 mg daily''"
    by (simp add: sg lg)
  moreover
  from repair_acceptance_rule [where llm = ?bad and r = "all_fields ''n/a''", OF pre post t bad]
  have "\<exists>r' calls'.
      re_extract_missing_fields ?bad ''Turmeric.'' [''title'', ''year'', ''dose'', ''toxicity'']
        (all_fields ''n/a'') 0 = (Inr r', calls') \<and>
      map_of (to_dict r') ''dose'' = Some ''n/a''"
    by (simp add: sb lb old)
  ultimately show ?thesis by blast
qed

text \<open>
  Claim C4, as stated, fails: for the empty document and a service on which every call
  fails, the pipeline returns a result, with \<^verbatim>\<open>"Not mentioned"\<close> in every field, after 16
  extraction calls and 13 re-extraction calls.
\<close>

theorem empty_document_is_processed:
  "extract_herb_information failing_service [] 0 = (Inr (all_fields ''Not mentioned''), 29)"
  using extract_herb_information_failing [of failing_service "[]" 0]
  by (simp add: failing_service_def)

text \<open>
  Claim C4, amended. The pipeline does not check its document: handed the empty document
  it does not fail but runs on it as on any other text. The extraction makes its 16 calls,
  the call for each field with that field's prompt followed by the empty text, and stores
  the stripped answer of every call that is answered. The pipeline then returns a result,
  after these 16 calls and one call for every field of the list of missing fields that has
  a re-extraction prompt.
\<close>

theorem pipeline_accepts_empty_document:
  "\<exists>r0 r.
     extract_initial_information llm '''' calls = (Inr r0, calls + 16) \<and>
     (\<forall>i result.
        i < length extraction_prompts \<and>
        llm (calls + i) (snd (extraction_prompts ! i) @ '''') = Inr result \<longrightarrow>
        map_of (to_dict r0) (fst (extraction_prompts ! i)) = Some (strip result)) \<and>
     extract_herb_information llm '''' calls
       = (Inr r, calls + 16 +
            length (filter (\<lambda>f. map_of re_extraction_prompts f \<noteq> None)
                      (get_missing_fields (validate_extraction r0))))"
proof -
  let ?d = "stored_fields llm '''' calls extraction_prompts"
  let ?r0 = "make_result ?d"
  let ?m = "get_missing_fields (validate_extraction ?r0)"
  let ?n = "length (filter (\<lambda>f. map_of re_extraction_prompts f \<noteq> None) ?m)"
  have init: "extract_initial_information llm '''' calls = (Inr ?r0, calls + 16)"
    by (rule extract_initial_information_eq)
  have dist: "distinct (map fst extraction_prompts)"
    by (simp add: keys_extraction_prompts distinct_field_names)
  have answered: "map_of (to_dict ?r0) (fst (extraction_prompts ! i)) = Some (strip result)"
    if "i < length extraction_prompts"
      and "llm (calls + i) (snd (extraction_prompts ! i) @ '''') = Inr result"
    for i result
  proof -
    from that(2) have "stored llm '''' (calls + i) (snd (extraction_prompts ! i)) = strip result"
      by (simp add: stored_def)
    with map_of_stored_fields [OF dist that(1), of llm "''''" calls] show ?thesis
      by (simp add: to_dict_extracted)
  qed
  obtain r where run: "re_extract_loop llm '''' ?m ?r0 (calls + 16) = (Inr r, calls + 16 + ?n)"
    using re_extract_loop_returns by blast
  have "\<exists>r. extract_herb_information llm '''' calls = (Inr r, calls + 16 + ?n)"
  proof (cases "?m = []")
    case True
    then show ?thesis
      by (simp add: extract_herb_information_eq Let_def)
  next
    case False
    with run show ?thesis
      by (simp add: extract_herb_information_eq re_extract_missing_fields_def Let_def)
  qed
  with init answered show ?thesis by blast
qed

text \<open>
  The theorem at a service that answers only the prompt for \<open>title\<close> followed by the
  empty text, and fails on every other prompt.
\<close>

theorem pipeline_accepts_empty_document_witness:
  "\<exists>r0 r.
     extract_initial_information
       (\<lambda>k prompt. if prompt = snd (extraction_prompts ! 0) then Inr '' Curcuma longa ''
                    else Inl (GenerationError ''timeout'')) '''' 0
       = (Inr r0, 16) \<and>
     map_of (to_dict r0) ''title'' = Some ''Curcuma longa'' \<and>
     extract_herb_information
       (\<lambda>k prompt. if prompt = snd (extraction_prompts ! 0) then Inr '' Curcuma longa ''
                    else Inl (GenerationError ''timeout'')) '''' 0
       = (Inr r, 16 + length (filter (\<lambda>f. map_of re_extraction_prompts f \<noteq> None)
                               (get_missing_fields (validate_extraction r0))))"
proof -
  let ?llm = "\<lambda>(k::nat) prompt.
      if prompt = snd (extraction_prompts ! 0) then Inr '' Curcuma longa ''
      else Inl (GenerationError ''timeout'')"
  have i: "0 < length extraction_prompts"
    by (simp add: length_extraction_prompts)
  have a: "?llm (0 + 0) (snd (extraction_prompts ! 0) @ '''') = Inr '' Curcuma longa ''"
    by simp
  have s: "strip '' Curcuma longa '' = ''Curcuma longa''"
    by (simp add: strip_def lstrip_def rstrip_def isspace_def)
  have n: "fst (extraction_prompts ! 0) = ''title''"
    by (simp add: extraction_prompts_def)
  from pipeline_accepts_empty_document [where llm = ?llm and calls = 0]
  obtain r0 r where
    init: "extract_initial_information ?llm '''' 0 = (Inr r0, 0 + 16)"
    and answered: "\<forall>i result.
        i < length extraction_prompts \<and>
        ?llm (0 + i) (snd (extraction_prompts ! i) @ '''') = Inr result \<longrightarrow>
        map_of (to_dict r0) (fst (extraction_prompts ! i)) = Some (strip result)"
    and run: "extract_herb_information ?llm '''' 0
       = (Inr r, 0 + 16 + length (filter (\<lambda>f. map_of re_extraction_prompts f \<noteq> None)
                                    (get_missing_fields (validate_extraction r0))))"
    by blast
  from answered i a have "map_of (to_dict r0) (fst (extraction_prompts ! 0))
      = Some (strip '' Curcuma longa '')"
    by blast
  then have "map_of (to_dict r0) ''title'' = Some ''Curcuma longa''"
    by (simp only: n s)
  with init run show ?thesis by auto
qed

text \<open>
  Claim C5. The re-extraction returns a result in which every field that is not in
  \<open>missing_fields\<close>, and every field that has no re-extraction prompt, holds the value it
  had before; every field holds either the value it had before or the stripped text of an
  answer of the service to the field's own re-extraction prompt that passed the test (not
  empty after stripping, and not a sentinel after lower-casing); and the result has the
  same field names as before.
\<close>

theorem repair_frame:
  "\<exists>r' calls'.
     re_extract_missing_fields llm paper_text missing_fields r calls = (Inr r', calls') \<and>
     (\<forall>n. n \<notin> set missing_fields \<or> map_of re_extraction_prompts n = None \<longrightarrow>
          map_of (to_dict r') n = map_of (to_dict r) n) \<and>
     (\<forall>n. map_of (to_dict r') n = map_of (to_dict r) n \<or>
          (\<exists>k t result. n \<in> set missing_fields \<and> map_of re_extraction_prompts n = Some t \<and>
             llm k (t @ paper_text) = Inr result \<and> strip result \<noteq> [] \<and>
             lower (strip result) \<notin> {''not mentioned'', ''not available'', ''''} \<and>
             map_of (to_dict r') n = Some (strip result))) \<and>
     map fst (to_dict r') = map fst (to_dict r)"
proof -
  obtain r' calls' where
    run: "re_extract_loop llm paper_text missing_fields r calls = (Inr r', calls')"
    using re_extract_loop_returns by blast
  have "\<forall>n. n \<notin> set missing_fields \<or> map_of re_extraction_prompts n = None \<longrightarrow>
          map_of (to_dict r') n = map_of (to_dict r) n"
    using re_extract_loop_frame [OF run] by blast
  moreover have "\<forall>n. map_of (to_dict r') n = map_of (to_dict r) n \<or>
          (\<exists>k t result. n \<in> set missing_fields \<and> map_of re_extraction_prompts n = Some t \<and>
             llm k (t @ paper_text) = Inr result \<and> strip result \<noteq> [] \<and>
             lower (strip result) \<notin> {''not mentioned'', ''not available'', ''''} \<and>
             map_of (to_dict r') n = Some (strip result))"
    using re_extract_loop_origin [OF run] unfolding accepted_iff by blast
  moreover have "map fst (to_dict r') = map fst (to_dict r)"
    by (simp only: keys_to_dict)
  ultimately show ?thesis
    using run unfolding re_extract_missing_fields_def by blast
qed

text \<open>
  The theorem at the fields \<open>title\<close> (selected, without a prompt) and \<open>year\<close> (not
  selected), for a service that answers every call.
\<close>

theorem repair_frame_witness:
  "\<exists>r' calls'.
     re_extract_missing_fields (\<lambda>k prompt. Inr ''500 mg daily'') ''Turmeric.''
       [''title'', ''dose''] (all_fields ''Not mentioned'') 0 = (Inr r', calls') \<and>
     map_of (to_dict r') ''title'' = Some ''Not mentioned'' \<and>
     map_of (to_dict r') ''year'' = Some ''Not mentioned'' \<and>
     map fst (to_dict r') = map fst (to_dict (all_fields ''Not mentioned''))"
proof -
  have t: "map_of re_extraction_prompts ''title'' = None"
    by (simp add: re_extraction_prompts_def)
  have y: "''year'' \<notin> set [''title'', ''dose'']"
    by simp
  have v: "map_of (to_dict (all_fields ''Not mentioned'')) ''title'' = Some ''Not mentioned''"
      "map_of (to_dict (all_fields ''Not mentioned'')) ''year'' = Some ''Not mentioned''"
    by (simp_all add: to_dict_def all_fields_def)
  from repair_frame [where llm = "\<lambda>k prompt. Inr ''500 mg daily''"
      and paper_text = "''Turmeric.''" and missing_fields = "[''title'', ''dose'']"
      and r = "all_fields ''Not mentioned''" and calls = 0]
  obtain r' calls' where
    run: "re_extract_missing_fields (\<lambda>k prompt. Inr ''500 mg daily'') ''Turmeric.''
       [''title'', ''dose''] (all_fields ''Not mentioned'') 0 = (Inr r', calls')"
    and frame: "\<forall>n. n \<notin> set [''title'', ''dose''] \<or> map_of re_extraction_prompts n = None \<longrightarrow>
          map_of (to_dict r') n = map_of (to_dict (all_fields ''Not mentioned'')) n"
    and keys: "map fst (to_dict r') = map fst (to_dict (all_fields ''Not mentioned''))"
    by blast
  from frame t have "map_of (to_dict r') ''title'' = Some ''Not mentioned''"
    using v(1) by metis
  moreover from frame y have "map_of (to_dict r') ''year'' = Some ''Not mentioned''"
    using v(2) by metis
  ultimately show ?thesis using run keys by blast
qed

text \<open>
  Claim C6. For every document and every behaviour of the service, the dictionary the
  extraction loop builds has exactly the 16 keys of the schema, each once and in schema
  order, and the result object holds exactly these entries: no default of the constructor
  call is used and no field is absent. The validation report has the same keys, and a
  re-extraction returns a result with the same keys.
\<close>

theorem record_covers_schema:
  "\<exists>extracted_fields r r'.
     extract_fields llm paper_text extraction_prompts [] calls
       = (Inr extracted_fields, calls + 16) \<and>
     map fst extracted_fields = map fst extraction_prompts \<and>
     distinct (map fst extraction_prompts) \<and> length extraction_prompts = 16 \<and>
     extract_initial_information llm paper_text calls = (Inr r, calls + 16) \<and>
     to_dict r = extracted_fields \<and>
     map fst (validate_extraction r) = map fst (to_dict r) \<and>
     fst (re_extract_missing_fields llm paper_text missing_fields r0 calls0) = Inr r' \<and>
     map fst (to_dict r') = map fst (to_dict r0)"
proof -
  let ?d = "stored_fields llm paper_text calls extraction_prompts"
  have "distinct (map fst ([] :: (string \<times> string) list) @ map fst extraction_prompts)"
    by (simp add: keys_extraction_prompts distinct_field_names)
  from extract_fields_eq [OF this, of llm paper_text calls]
  have 1: "extract_fields llm paper_text extraction_prompts [] calls = (Inr ?d, calls + 16)"
    by (simp add: length_extraction_prompts)
  have 2: "map fst ?d = map fst extraction_prompts"
    by (rule keys_stored_fields)
  have 3: "distinct (map fst extraction_prompts)"
    by (simp add: keys_extraction_prompts distinct_field_names)
  have 4: "extract_initial_information llm paper_text calls = (Inr (make_result ?d), calls + 16)"
    by (rule extract_initial_information_eq)
  have 5: "to_dict (make_result ?d) = ?d"
    by (rule to_dict_extracted)
  have 6: "map fst (validate_extraction (make_result ?d)) = map fst (to_dict (make_result ?d))"
    by (simp only: keys_validate_extraction keys_to_dict)
  obtain r' c' where 7: "re_extract_loop llm paper_text missing_fields r0 calls0 = (Inr r', c')"
    using re_extract_loop_returns by blast
  have 8: "map fst (to_dict r') = map fst (to_dict r0)"
    by (simp only: keys_to_dict)
  from 1 2 3 4 5 6 7 8 show ?thesis
    by (simp add: re_extract_missing_fields_def length_extraction_prompts)
qed

text \<open>
  Claim C7. Whatever calls of the generation service fail, no exception leaves the
  extraction, the re-extraction or the pipeline, and no round is skipped: the extraction
  makes all 16 calls, the re-extraction makes one call for every selected field that has
  a re-extraction prompt, and the pipeline returns a result with every schema field.
\<close>

theorem generation_failures_never_escalate:
  "(\<exists>r. extract_initial_information llm paper_text calls = (Inr r, calls + 16)) \<and>
   (\<exists>r'. re_extract_missing_fields llm paper_text missing_fields r0 calls
            = (Inr r', calls + length (filter (\<lambda>f. map_of re_extraction_prompts f \<noteq> None)
                                         missing_fields))) \<and>
   (\<exists>r calls'. extract_herb_information llm paper_text calls = (Inr r, calls') \<and>
        calls + 16 \<le> calls' \<and> map fst (to_dict r) = map fst extraction_prompts)"
proof (intro conjI)
  show "\<exists>r. extract_initial_information llm paper_text calls = (Inr r, calls + 16)"
    by (simp add: extract_initial_information_eq)
  show "\<exists>r'. re_extract_missing_fields llm paper_text missing_fields r0 calls
            = (Inr r', calls + length (filter (\<lambda>f. map_of re_extraction_prompts f \<noteq> None)
                                         missing_fields))"
    unfolding re_extract_missing_fields_def by (rule re_extract_loop_returns)
  let ?r = "make_result (stored_fields llm paper_text calls extraction_prompts)"
  let ?m = "get_missing_fields (validate_extraction ?r)"
  obtain r' where "re_extract_loop llm paper_text ?m ?r (calls + 16)
      = (Inr r', calls + 16 + length (filter (\<lambda>f. map_of re_extraction_prompts f \<noteq> None) ?m))"
    using re_extract_loop_returns by blast
  then have "\<exists>r calls'. extract_herb_information llm paper_text calls = (Inr r, calls') \<and>
        calls + 16 \<le> calls'"
    by (simp add: extract_herb_information_eq re_extract_missing_fields_def Let_def)
  then show "\<exists>r calls'. extract_herb_information llm paper_text calls = (Inr r, calls') \<and>
        calls + 16 \<le> calls' \<and> map fst (to_dict r) = map fst extraction_prompts"
    by (simp add: keys_to_dict keys_extraction_prompts)
qed

text \<open>
  Claim C8. \<open>get_missing_fields\<close> returns the names of the entries whose status is
  MISSING or PARTIAL, in the order of the report; for the report of a result these are
  the fields, in schema order, whose value is a sentinel, empty or shorter than 5 after
  stripping. The pipeline runs the re-extraction iff this list is not empty; when it is
  empty it returns the initial extraction and makes no further call.
\<close>

theorem missing_fields_gate_repair:
  "get_missing_fields validations
     = map fst (filter (\<lambda>(name, validation).
                          status validation = MISSING \<or> status validation = PARTIAL)
                 validations) \<and>
   get_missing_fields (validate_extraction extraction)
     = map fst (filter (\<lambda>(name, v).
                          v \<in> {''Not mentioned'', ''Not available'', ''''} \<or> length (strip v) < 5)
                 (to_dict extraction)) \<and>
   (\<exists>r. extract_initial_information llm paper_text calls = (Inr r, calls + 16) \<and>
        extract_herb_information llm paper_text calls
          = (if get_missing_fields (validate_extraction r) = [] then (Inr r, calls + 16)
             else re_extract_missing_fields llm paper_text
                    (get_missing_fields (validate_extraction r)) r (calls + 16)))"
proof (intro conjI)
  show "get_missing_fields validations
     = map fst (filter (\<lambda>(name, validation).
                          status validation = MISSING \<or> status validation = PARTIAL)
                 validations)"
    by (rule get_missing_fields_eq)
  have "get_missing_fields (validate_extraction extraction)
      = map fst (filter (\<lambda>(name, v). status (entry name v) = MISSING \<or>
                                      status (entry name v) = PARTIAL) (to_dict extraction))"
    by (simp add: get_missing_fields_eq validate_extraction_eq filter_map comp_def
        case_prod_unfold)
  also have "(\<lambda>(name, v). status (entry name v) = MISSING \<or> status (entry name v) = PARTIAL)
      = (\<lambda>(name, v). v \<in> {''Not mentioned'', ''Not available'', ''''} \<or> length (strip v) < 5)"
    by (auto simp: entry_def fun_eq_iff)
  finally show "get_missing_fields (validate_extraction extraction)
     = map fst (filter (\<lambda>(name, v).
                          v \<in> {''Not mentioned'', ''Not available'', ''''} \<or> length (strip v) < 5)
                 (to_dict extraction))" .
  show "\<exists>r. extract_initial_information llm paper_text calls = (Inr r, calls + 16) \<and>
        extract_herb_information llm paper_text calls
          = (if get_missing_fields (validate_extraction r) = [] then (Inr r, calls + 16)
             else re_extract_missing_fields llm paper_text
                    (get_missing_fields (validate_extraction r)) r (calls + 16))"
    by (simp add: extract_initial_information_eq extract_herb_information_eq Let_def)
qed

text \<open>
  Claim C9. If the answer to the call of a field is empty after stripping, the extraction
  stores the empty string for the field, not a sentinel, and the validation of the result
  classifies the field as MISSING with confidence 0.0. The field is the one at place \<open>i\<close>
  of the schema; its call is call number \<open>calls + i\<close>.
\<close>

theorem empty_response_is_stored_and_missing:
  assumes "i < length extraction_prompts"
    and "llm (calls + i) (snd (extraction_prompts ! i) @ paper_text) = Inr result"
    and "strip result = []"
  shows "\<exists>r. extract_initial_information llm paper_text calls = (Inr r, calls + 16) \<and>
     map_of (to_dict r) (fst (extraction_prompts ! i)) = Some [] \<and>
     map_of (validate_extraction r) (fst (extraction_prompts ! i))
       = Some \<lparr>field_name = fst (extraction_prompts ! i), field_value = [],
               status = MISSING, confidence = 0.0\<rparr>"
proof -
  let ?d = "stored_fields llm paper_text calls extraction_prompts"
  let ?name = "fst (extraction_prompts ! i)"
  have dist: "distinct (map fst extraction_prompts)"
    by (simp add: keys_extraction_prompts distinct_field_names)
  from assms(2,3) have "stored llm paper_text (calls + i) (snd (extraction_prompts ! i)) = []"
    by (simp add: stored_def)
  with map_of_stored_fields [OF dist assms(1), of llm paper_text calls]
  have v: "map_of ?d ?name = Some []" by simp
  then have "(?name, []) \<in> set (to_dict (make_result ?d))"
    by (simp add: to_dict_extracted map_of_SomeD)
  then have "map_of (validate_extraction (make_result ?d)) ?name = Some (entry ?name [])"
    by (rule map_of_validate_extraction)
  then have "map_of (validate_extraction (make_result ?d)) ?name
       = Some \<lparr>field_name = ?name, field_value = [], status = MISSING, confidence = 0.0\<rparr>"
    by (simp add: entry_def)
  with v show ?thesis
    by (simp add: extract_initial_information_eq to_dict_extracted)
qed

text \<open>The theorem at a service that answers the call for \<open>dose\<close> with two spaces.\<close>

theorem empty_response_is_stored_and_missing_witness:
  "\<exists>r. extract_initial_information
         (\<lambda>k prompt. if k = 6 then Inr ''  '' else Inr ''Curcuma longa'') ''Turmeric.'' 0
       = (Inr r, 16) \<and>
     map_of (to_dict r) ''dose'' = Some [] \<and>
     map_of (validate_extraction r) ''dose''
       = Some \<lparr>field_name = ''dose'', field_value = [], status = MISSING, confidence = 0.0\<rparr>"
proof -
  let ?llm = "\<lambda>(k::nat) (prompt::string). if k = 6 then Inr ''  '' else (Inr ''Curcuma longa'' :: error + string)"
  have i: "6 < length extraction_prompts"
    by (simp add: length_extraction_prompts)
  have a: "?llm (0 + 6) (snd (extraction_prompts ! 6) @ ''Turmeric.'') = Inr ''  ''"
    by simp
  have s: "strip ''  '' = []"
    by (simp add: strip_def lstrip_def rstrip_def isspace_def)
  have n: "fst (extraction_prompts ! 6) = ''dose''"
    by (simp add: extraction_prompts_def)
  from empty_response_is_stored_and_missing
         [where llm = ?llm and i = 6 and calls = 0 and paper_text = "''Turmeric.''"
            and result = "''  ''", OF i a s]
  show ?thesis
    by (simp add: n)
qed

text \<open>
  Claim C10. The validation compares the value as it is with the sentinels and strips it
  only for the length: a value that is not empty but is empty after stripping is PARTIAL
  with confidence 0.3, and a value that differs from both sentinels but equals one of them
  after stripping and lower-casing is COMPLETE with confidence 0.9.
\<close>

theorem validation_compares_raw_value:
  assumes "(name, v) \<in> set (to_dict extraction)"
  shows "(v \<noteq> [] \<and> strip v = [] \<longrightarrow>
            map_of (validate_extraction extraction) name
              = Some \<lparr>field_name = name, field_value = v, status = PARTIAL, confidence = 0.3\<rparr>) \<and>
         (v \<noteq> ''Not mentioned'' \<and> v \<noteq> ''Not available'' \<and>
          lower (strip v) \<in> {''not mentioned'', ''not available''} \<longrightarrow>
            map_of (validate_extraction extraction) name
              = Some \<lparr>field_name = name, field_value = v, status = COMPLETE, confidence = 0.9\<rparr>)"
proof (intro conjI impI)
  from assms have m: "map_of (validate_extraction extraction) name = Some (entry name v)"
    by (rule map_of_validate_extraction)
  {
    assume "v \<noteq> [] \<and> strip v = []"
    moreover from this have "v \<noteq> ''Not mentioned''" "v \<noteq> ''Not available''"
      using strip_not_mentioned strip_not_available by auto
    ultimately show "map_of (validate_extraction extraction) name
        = Some \<lparr>field_name = name, field_value = v, status = PARTIAL, confidence = 0.3\<rparr>"
      by (simp add: m entry_def)
  }
  {
    assume h: "v \<noteq> ''Not mentioned'' \<and> v \<noteq> ''Not available'' \<and>
          lower (strip v) \<in> {''not mentioned'', ''not available''}"
    then have "length (lower (strip v)) = 13" by auto
    then have len: "length (strip v) = 13" by (simp add: length_lower)
    then have "v \<noteq> []" using strip_Nil by auto
    with h len show "map_of (validate_extraction extraction) name
        = Some \<lparr>field_name = name, field_value = v, status = COMPLETE, confidence = 0.9\<rparr>"
      by (simp add: m entry_def)
  }
qed

text \<open>
  The theorem at the values \<^verbatim>\<open>"   "\<close>, \<^verbatim>\<open>"not mentioned"\<close> and \<^verbatim>\<open>" Not mentioned "\<close>.
\<close>

theorem validation_compares_raw_value_witness:
  "(''title'', ''   '') \<in> set (to_dict ((all_fields ''not mentioned'')
        \<lparr>title := ''   '', year := '' Not mentioned ''\<rparr>)) \<and>
   map_of (validate_extraction ((all_fields ''not mentioned'')
        \<lparr>title := ''   '', year := '' Not mentioned ''\<rparr>)) ''title''
     = Some \<lparr>field_name = ''title'', field_value = ''   '', status = PARTIAL, confidence = 0.3\<rparr> \<and>
   map_of (validate_extraction ((all_fields ''not mentioned'')
        \<lparr>title := ''   '', year := '' Not mentioned ''\<rparr>)) ''authors''
     = Some \<lparr>field_name = ''authors'', field_value = ''not mentioned'', status = COMPLETE,
          confidence = 0.9\<rparr> \<and>
   map_of (validate_extraction ((all_fields ''not mentioned'')
        \<lparr>title := ''   '', year := '' Not mentioned ''\<rparr>)) ''year''
     = Some \<lparr>field_name = ''year'', field_value = '' Not mentioned '', status = COMPLETE,
          confidence = 0.9\<rparr>"
proof -
  let ?r = "(all_fields ''not mentioned'')\<lparr>title := ''   '', year := '' Not mentioned ''\<rparr>"
  have a: "(''title'', ''   '') \<in> set (to_dict ?r)"
    and b: "(''authors'', ''not mentioned'') \<in> set (to_dict ?r)"
    and c: "(''year'', '' Not mentioned '') \<in> set (to_dict ?r)"
    by (simp_all add: to_dict_def all_fields_def)
  have sa: "strip ''   '' = []"
    and sb: "lower (strip ''not mentioned'') = ''not mentioned''"
    and sc: "lower (strip '' Not mentioned '') = ''not mentioned''"
    by (simp_all add: strip_def lstrip_def rstrip_def isspace_def lower_def lower_char_def
        char_of_eq_iff)
  from validation_compares_raw_value [OF a] sa
  have "map_of (validate_extraction ?r) ''title''
     = Some \<lparr>field_name = ''title'', field_value = ''   '', status = PARTIAL, confidence = 0.3\<rparr>"
    by simp
  moreover from validation_compares_raw_value [OF b] sb
  have "map_of (validate_extraction ?r) ''authors''
     = Some \<lparr>field_name = ''authors'', field_value = ''not mentioned'', status = COMPLETE,
          confidence = 0.9\<rparr>"
    by simp
  moreover from validation_compares_raw_value [OF c] sc
  have "map_of (validate_extraction ?r) ''year''
     = Some \<lparr>field_name = ''year'', field_value = '' Not mentioned '', status = COMPLETE,
          confidence = 0.9\<rparr>"
    by simp
  ultimately show ?thesis using a by blast
qed

end
